theory Spec2Isabelle
  imports Complex_Main
begin

section \<open>Text\<close>

text \<open>
  A Python \<open>str\<close> is modelled by \<^typ>\<open>string\<close>. The text the user types is taken to be
  ASCII; the few symbols of the user interface that are not ASCII (the dash, the warning
  sign) stand in the display constants as their UTF-8 bytes. On ASCII text
  \<open>str.lower()\<close> turns \<open>A\<close>..\<open>Z\<close> into \<open>a\<close>..\<open>z\<close> and leaves every other
  character alone, and \<open>str.strip()\<close> removes the white space at both ends. The Unicode
  case mapping of letters outside ASCII and the white space outside ASCII are not
  modelled: a byte above 127 is left alone by \<open>lower\<close> and is not white space.
\<close>

definition lower_char :: "char \<Rightarrow> char" where
  "lower_char c =
     (if 65 \<le> (of_char c :: nat) \<and> (of_char c :: nat) \<le> 90
      then char_of ((of_char c :: nat) + 32) else c)"

definition lower :: "string \<Rightarrow> string" where
  "lower s = map lower_char s"

text \<open>
  White space as \<open>str.isspace\<close> has it below 128: tab, line feed, vertical tab, form
  feed, carriage return, the four separators 28..31 and the space.
\<close>

definition isspace :: "char \<Rightarrow> bool" where
  "isspace c =
     ((9 \<le> (of_char c :: nat) \<and> (of_char c :: nat) \<le> 13)
      \<or> (28 \<le> (of_char c :: nat) \<and> (of_char c :: nat) \<le> 32))"

definition strip :: "string \<Rightarrow> string" where
  "strip s = rev (dropWhile isspace (rev (dropWhile isspace s)))"

text \<open>\<open>s.startswith(k)\<close>, and \<open>k in s\<close>: some suffix of \<open>s\<close> starts with \<open>k\<close>.\<close>

fun startswith :: "string \<Rightarrow> string \<Rightarrow> bool" where
  "startswith s [] = True"
| "startswith [] (k # ks) = False"
| "startswith (c # cs) (k # ks) = (c = k \<and> startswith cs ks)"

fun contains :: "string \<Rightarrow> string \<Rightarrow> bool" where
  "contains k [] = (k = [])"
| "contains k (c # cs) = (startswith (c # cs) k \<or> contains k cs)"

section \<open>Crisis keywords and helplines\<close>

definition CRISIS_KEYWORDS :: "string list" where
  "CRISIS_KEYWORDS =
     [''suicide'', ''kill myself'', ''want to die'', ''die'', ''hopeless'', ''worthless'',
      ''end my life'']"

text \<open>The dictionary is read in insertion order by \<open>items()\<close>: an association list.\<close>

definition HELPLINES :: "(string \<times> string) list" where
  "HELPLINES =
     [(''India (NIMHANS)'', ''080-4611-0007''),
      (''iCall India'', ''+91 9152987821''),
      (''US (988)'', ''988''),
      (''International (if available)'',
       ''Contact local emergency services / national lifeline'')]"

text \<open>
  Lines 168 and 169 of \<open>main\<close>: \<open>low = user_input.lower()\<close>, then
  \<open>any(k in low for k in CRISIS_KEYWORDS)\<close>.
\<close>

definition crisis_flagged :: "string \<Rightarrow> bool" where
  "crisis_flagged user_input =
     (let low = lower user_input in list_ex (\<lambda>k. contains k low) CRISIS_KEYWORDS)"

section \<open>The chat page\<close>

text \<open>
  What the handler puts on the page: \<open>st.warning\<close>, \<open>st.error\<close>, \<open>st.write\<close> and
  the \<open>st.spinner\<close> around the call of the model.
\<close>

datatype element = Warning string | Error string | Write string | Spinner string

datatype py_error = ZeroDivisionError | PipelineError | StreamlitAPIException

definition em_dash :: string where
  "em_dash = [CHR 0xE2, CHR 0x80, CHR 0x94]"

definition warning_sign :: string where
  "warning_sign = [CHR 0xE2, CHR 0x9A, CHR 0xA0]"

text \<open>Lines 170 to 173: the banner, one line for each helpline, the closing advice.\<close>

definition crisis_notice :: "element list" where
  "crisis_notice =
     Error (warning_sign @ '' It looks like you may be in crisis or feeling unsafe. Please reach out to a helpline or trusted person immediately.'')
     # map (\<lambda>(name, num). Write (name @ ''** '' @ em_dash @ '' '' @ num)) HELPLINES
     @ [Write ''If you are in immediate danger, contact emergency services in your country.'']"

text \<open>Lines 168 to 173 together: what crisis detection adds to the page.\<close>

definition crisis_check :: "string \<Rightarrow> element list" where
  "crisis_check user_input = (if crisis_flagged user_input then crisis_notice else [])"

text \<open>
  Lines 182 to 185: \<open>reply = gen[len(user_input):].strip()\<close>, and \<open>gen\<close> itself when
  nothing is left.
\<close>

definition extract_reply :: "string \<Rightarrow> string \<Rightarrow> string" where
  "extract_reply user_input gen =
     (let reply = strip (drop (length user_input) gen)
      in if reply = [] then gen else reply)"

text \<open>
  The outcome of one press of \<open>Send\<close> (lines 163 to 188): the elements put on the page,
  the prompts handed to the model, \<open>st.session_state.chat_history\<close> afterwards, and
  the exception that ended the handler, if any. The model is opaque and samples its
  output, so it is a parameter: \<open>chat_model user_input\<close> is the \<open>generated_text\<close> of
  this call, or the exception the call raised.
\<close>

record chat_outcome =
  shown :: "element list"
  prompts :: "string list"
  chat_history :: "(string \<times> string) list"
  raised :: "py_error option"

definition send :: "(string \<Rightarrow> py_error + string) \<Rightarrow> string \<Rightarrow> (string \<times> string) list \<Rightarrow> chat_outcome" where
  "send chat_model user_input history =
     (if strip user_input = []
      then \<lparr>shown = [Warning ''Please type something before sending.''], prompts = [],
            chat_history = history, raised = None\<rparr>
      else
        let page = crisis_check user_input @ [Spinner ''AI is thinking...'']
        in case chat_model user_input of
             Inl e \<Rightarrow>
               \<lparr>shown = page, prompts = [user_input], chat_history = history,
                raised = Some e\<rparr>
           | Inr gen \<Rightarrow>
               \<lparr>shown = page, prompts = [user_input],
                chat_history =
                  history @ [(''You'', user_input), (''AI'', extract_reply user_input gen)],
                raised = None\<rparr>)"

section \<open>The breathing exercise\<close>

text \<open>
  \<open>time.time()\<close> is a float; the floats are modelled by the reals, so rounding is not
  modelled. Python's \<open>/\<close>, \<open>%\<close> and \<open>//\<close> raise on a zero divisor; \<open>%\<close> takes the
  sign of the divisor and \<open>//\<close> rounds down; \<open>int\<close> rounds toward zero.
\<close>

definition truediv :: "real \<Rightarrow> real \<Rightarrow> py_error + real" where
  "truediv a b = (if b = 0 then Inl ZeroDivisionError else Inr (a / b))"

definition py_mod :: "real \<Rightarrow> real \<Rightarrow> py_error + real" where
  "py_mod a b = (if b = 0 then Inl ZeroDivisionError else Inr (a - b * of_int \<lfloor>a / b\<rfloor>))"

definition floordiv :: "real \<Rightarrow> real \<Rightarrow> py_error + real" where
  "floordiv a b = (if b = 0 then Inl ZeroDivisionError else Inr (of_int \<lfloor>a / b\<rfloor>))"

definition py_int :: "real \<Rightarrow> int" where
  "py_int x = (if x < 0 then \<lceil>x\<rceil> else \<lfloor>x\<rfloor>)"

definition total_seconds :: real where
  "total_seconds = 60"

text \<open>Line 229: \<open>int((elapsed / total_seconds) * 100)\<close>.\<close>

definition progress_value :: "real \<Rightarrow> py_error + int" where
  "progress_value elapsed =
     (case truediv elapsed total_seconds of
        Inl e \<Rightarrow> Inl e
      | Inr q \<Rightarrow> Inr (py_int (q * 100)))"

text \<open>Line 230: \<open>int((elapsed % 16) // 4)\<close>.\<close>

definition phase :: "real \<Rightarrow> py_error + int" where
  "phase elapsed =
     (case py_mod elapsed 16 of
        Inl e \<Rightarrow> Inl e
      | Inr r \<Rightarrow> (case floordiv r 4 of Inl e \<Rightarrow> Inl e | Inr q \<Rightarrow> Inr (py_int q)))"

datatype status_box = Info string | Success string

text \<open>Lines 231 to 238. Both holds show the same words.\<close>

definition phase_status :: "int \<Rightarrow> status_box" where
  "phase_status p =
     (if p = 0 then Info (''Inhale '' @ em_dash @ '' 4 seconds'')
      else if p = 1 then Info (''Hold '' @ em_dash @ '' 4 seconds'')
      else if p = 2 then Info (''Exhale '' @ em_dash @ '' 4 seconds'')
      else Info (''Hold '' @ em_dash @ '' 4 seconds''))"

text \<open>
  What the progress bar and the status box show after one pass of the loop, and whether
  the loop has ended (lines 226 to 241).
\<close>

text \<open>
  \<open>prog.progress(value)\<close> is a call into the Streamlit library, which is not part of
  the source: for an \<open>int\<close> it sets the bar when the value lies in 0..100 and raises
  \<open>StreamlitAPIException\<close> otherwise.
\<close>

definition progress :: "int \<Rightarrow> py_error + int" where
  "progress v = (if 0 \<le> v \<and> v \<le> 100 then Inr v else Inl StreamlitAPIException)"

record frame =
  prog :: int
  status :: status_box
  finished :: bool

text \<open>
  One pass reads the clock twice: \<open>now1\<close> in the loop condition, \<open>now2\<close> for
  \<open>elapsed\<close>. Line 229 sets the bar before line 230 computes the phase, so a value the
  bar rejects ends the pass with no phase shown. When the condition fails the loop ends
  and lines 240 and 241 run.
\<close>

definition breathing_pass :: "real \<Rightarrow> real \<Rightarrow> real \<Rightarrow> py_error + frame" where
  "breathing_pass t0 now1 now2 =
     (if now1 - t0 < total_seconds
      then
        (let elapsed = now2 - t0
         in case progress_value elapsed of
              Inl e \<Rightarrow> Inl e
            | Inr v \<Rightarrow>
                (case progress v of
                   Inl e \<Rightarrow> Inl e
                 | Inr bar \<Rightarrow>
                     (case phase elapsed of
                        Inl e \<Rightarrow> Inl e
                      | Inr p \<Rightarrow>
                          Inr \<lparr>prog = bar, status = phase_status p, finished = False\<rparr>)))
      else
        (case progress 100 of
           Inl e \<Rightarrow> Inl e
         | Inr bar \<Rightarrow>
             Inr \<lparr>prog = bar,
                  status =
                    Success (''Great '' @ em_dash @ '' one minute done. How do you feel now?''),
                  finished = True\<rparr>))"

text \<open>A sample at one instant: both reads of the clock return \<open>now\<close>.\<close>

definition sample :: "real \<Rightarrow> real \<Rightarrow> py_error + frame" where
  "sample t0 now = breathing_pass t0 now now"

section \<open>The matched terms of the specification\<close>

text \<open>
  The specification's \<open>matchedTerms\<close>, in its words: every keyword that matched, in the
  order of the keyword list. The source has no such list; this definition only serves to
  compare the specification with what the source computes.
\<close>

definition spec_matchedTerms :: "string \<Rightarrow> string list" where
  "spec_matchedTerms message = filter (\<lambda>k. contains k (lower message)) CRISIS_KEYWORDS"

section \<open>Substring search\<close>

lemma startswith_iff: "startswith s k \<longleftrightarrow> (\<exists>post. s = k @ post)"
  by (induction s k rule: startswith.induct) auto

lemma contains_iff: "contains k s \<longleftrightarrow> (\<exists>pre post. s = pre @ k @ post)"
proof (induction s)
  case Nil
  show ?case by auto
next
  case (Cons c cs)
  show ?case
  proof
    assume "contains k (c # cs)"
    then consider "startswith (c # cs) k" | "contains k cs" by auto
    then show "\<exists>pre post. c # cs = pre @ k @ post"
    proof cases
      case 1
      then obtain post where "c # cs = k @ post" by (auto simp: startswith_iff)
      then have "c # cs = [] @ k @ post" by simp
      then show ?thesis by blast
    next
      case 2
      with Cons.IH obtain pre post where "cs = pre @ k @ post" by auto
      then have "c # cs = (c # pre) @ k @ post" by simp
      then show ?thesis by blast
    qed
  next
    assume "\<exists>pre post. c # cs = pre @ k @ post"
    then obtain pre post where eq: "c # cs = pre @ k @ post" by blast
    show "contains k (c # cs)"
    proof (cases pre)
      case Nil
      with eq have "startswith (c # cs) k" by (auto simp: startswith_iff)
      then show ?thesis by simp
    next
      case (Cons p ps)
      with eq have "cs = ps @ k @ post" by simp
      with Cons.IH have "contains k cs" by blast
      then show ?thesis by simp
    qed
  qed
qed

lemma any_keyword_iff:
  "list_ex (\<lambda>k. contains k low) ks \<longleftrightarrow> (\<exists>k\<in>set ks. \<exists>pre post. low = pre @ k @ post)"
  by (simp add: list_ex_iff contains_iff)

lemma lower_append: "lower (xs @ ys) = lower xs @ lower ys"
  by (simp add: lower_def)

section \<open>Blank messages\<close>

lemma dropWhile_Nil_iff: "dropWhile P xs = [] \<longleftrightarrow> (\<forall>x\<in>set xs. P x)"
  by (induction xs) auto

lemma strip_empty_iff: "strip s = [] \<longleftrightarrow> (\<forall>c\<in>set s. isspace c)"
proof
  assume "strip s = []"
  then have all: "\<forall>c\<in>set (dropWhile isspace s). isspace c"
    by (simp add: strip_def dropWhile_Nil_iff)
  show "\<forall>c\<in>set s. isspace c"
  proof (cases "dropWhile isspace s")
    case Nil
    then show ?thesis by (simp add: dropWhile_Nil_iff)
  next
    case (Cons d ds)
    then have "\<not> isspace d" using hd_dropWhile [of isspace s] by auto
    moreover from Cons all have "isspace d" by simp
    ultimately show ?thesis by blast
  qed
next
  assume "\<forall>c\<in>set s. isspace c"
  then have "dropWhile isspace s = []" by (simp add: dropWhile_Nil_iff)
  then have "rev (dropWhile isspace (rev (dropWhile isspace s))) = rev (dropWhile isspace (rev []))"
    by (rule arg_cong)
  then show "strip s = []" unfolding strip_def by simp
qed

lemma isspace_lower_char: "isspace c \<Longrightarrow> lower_char c = c"
  by (auto simp: isspace_def lower_char_def)

lemma lower_blank: "\<forall>c\<in>set m. isspace c \<Longrightarrow> lower m = m"
  by (induction m) (auto simp: lower_def isspace_lower_char)

lemma keyword_has_letter: "k \<in> set CRISIS_KEYWORDS \<Longrightarrow> \<exists>c\<in>set k. \<not> isspace c"
  by (auto simp: CRISIS_KEYWORDS_def isspace_def)

lemma blank_has_no_keyword:
  assumes "\<forall>c\<in>set m. isspace c" and "k \<in> set CRISIS_KEYWORDS"
  shows "\<not> contains k (lower m)"
proof
  assume "contains k (lower m)"
  then obtain pre post where "lower m = pre @ k @ post" by (auto simp: contains_iff)
  with assms(1) have "m = pre @ k @ post" by (simp add: lower_blank)
  then have "set k \<subseteq> set m" by auto
  with assms(1) have "\<forall>c\<in>set k. isspace c" by blast
  with keyword_has_letter [OF assms(2)] show False by blast
qed

lemma flagged_not_blank: "crisis_flagged m \<Longrightarrow> strip m \<noteq> []"
  unfolding crisis_flagged_def Let_def list_ex_iff strip_empty_iff
  using blank_has_no_keyword by blast

section \<open>Arithmetic of the timer\<close>

lemma py_int_of_int: "py_int (of_int z) = z"
  by (simp add: py_int_def)

lemma py_int_mono: "x \<le> y \<Longrightarrow> py_int x \<le> py_int y"
proof -
  assume xy: "x \<le> y"
  have fc: "\<lfloor>x\<rfloor> \<le> \<lceil>x\<rceil>" by (rule floor_le_ceiling)
  consider "y < 0" | "x < 0" "0 \<le> y" | "0 \<le> x" using xy by linarith
  then show ?thesis
  proof cases
    case 1
    with xy show ?thesis by (simp add: py_int_def ceiling_mono)
  next
    case 2
    then have "\<lceil>x\<rceil> \<le> 0" by (simp add: ceiling_le_zero)
    moreover from 2 have "0 \<le> \<lfloor>y\<rfloor>" by simp
    ultimately have "\<lceil>x\<rceil> \<le> \<lfloor>y\<rfloor>" by linarith
    moreover from 2 have "py_int x = \<lceil>x\<rceil>" "py_int y = \<lfloor>y\<rfloor>"
      by (simp_all add: py_int_def)
    ultimately show ?thesis by simp
  next
    case 3
    with xy show ?thesis by (simp add: py_int_def floor_mono)
  qed
qed

lemma phase_eq: "phase t = Inr \<lfloor>(t - 16 * of_int \<lfloor>t / 16\<rfloor>) / 4\<rfloor>"
  by (simp add: phase_def py_mod_def floordiv_def py_int_of_int)

lemma progress_value_eq: "progress_value e = Inr (py_int (e / 60 * 100))"
  by (simp add: progress_value_def truediv_def total_seconds_def)

lemma mod16_range: "0 \<le> t - 16 * of_int \<lfloor>t / 16\<rfloor> \<and> t - 16 * of_int \<lfloor>t / 16\<rfloor> < (16::real)"
proof -
  have "of_int \<lfloor>t / 16\<rfloor> \<le> t / 16" "t / 16 < of_int \<lfloor>t / 16\<rfloor> + 1"
    by linarith+
  then show ?thesis by linarith
qed

lemma phase_index_range: "\<lfloor>((t::real) - 16 * of_int \<lfloor>t / 16\<rfloor>) / 4\<rfloor> \<in> {0, 1, 2, 3::int}"
proof -
  define r where "r = t - 16 * of_int \<lfloor>t / 16\<rfloor>"
  from mod16_range [of t] have "0 \<le> r" "r < 16" by (simp_all add: r_def)
  then have bounds: "0 \<le> r / 4" "r / 4 < 4" by simp_all
  define q where "q = \<lfloor>r / 4\<rfloor>"
  from bounds have "0 \<le> q" "q < 4" unfolding q_def by linarith+
  then have "q \<in> {0, 1, 2, 3::int}" by auto
  then show ?thesis by (simp only: q_def r_def)
qed

lemma phase_in_window:
  assumes "16 * of_int n + 4 * of_int i \<le> t" and "t < 16 * of_int n + 4 * of_int i + 4"
    and "0 \<le> i" and "i \<le> 3"
  shows "phase t = Inr i"
proof -
  have "of_int n \<le> t / 16" using assms by simp
  moreover have "t / 16 < of_int n + 1" using assms by simp
  ultimately have fl: "\<lfloor>t / 16\<rfloor> = n" by linarith
  have "of_int i \<le> (t - 16 * of_int n) / 4" using assms by simp
  moreover have "(t - 16 * of_int n) / 4 < of_int i + 1" using assms by simp
  ultimately have "\<lfloor>(t - 16 * of_int n) / 4\<rfloor> = i" by linarith
  with fl show ?thesis by (simp add: phase_eq)
qed

lemma py_int_in_bar: "0 \<le> py_int x \<and> py_int x \<le> 100 \<longleftrightarrow> - 1 < x \<and> x < 101"
proof (cases "x < 0")
  case True
  then have "\<lceil>x\<rceil> \<le> 0" by (simp add: ceiling_le_zero)
  moreover have "0 \<le> \<lceil>x\<rceil> \<longleftrightarrow> - 1 < x" by (simp add: le_ceiling_iff)
  ultimately show ?thesis using True by (auto simp: py_int_def)
next
  case False
  then have "0 \<le> \<lfloor>x\<rfloor>" by simp
  moreover have "\<lfloor>x\<rfloor> \<le> 100 \<longleftrightarrow> x < 101" by (simp add: floor_le_iff)
  ultimately show ?thesis using False by (auto simp: py_int_def)
qed

lemma progress_in_range: "0 \<le> v \<and> v \<le> 100 \<Longrightarrow> progress v = Inr v"
  by (simp add: progress_def)

lemma progress_out_of_range: "\<not> (0 \<le> v \<and> v \<le> 100) \<Longrightarrow> progress v = Inl StreamlitAPIException"
  by (simp add: progress_def)

lemma progress_accepts: "- (3 / 5) < e \<Longrightarrow> e < 303 / 5 \<Longrightarrow>
    progress (py_int (e / 60 * 100)) = Inr (py_int (e / 60 * 100))"
proof -
  assume "- (3 / 5) < e" "e < 303 / 5"
  then have "- 1 < e / 60 * 100 \<and> e / 60 * 100 < 101" by simp
  with py_int_in_bar [of "e / 60 * 100"]
  have "0 \<le> py_int (e / 60 * 100) \<and> py_int (e / 60 * 100) \<le> 100" by blast
  then show ?thesis by (rule progress_in_range)
qed

lemma progress_rejects: "e \<le> - (3 / 5) \<or> 303 / 5 \<le> e \<Longrightarrow>
    progress (py_int (e / 60 * 100)) = Inl StreamlitAPIException"
proof -
  assume "e \<le> - (3 / 5) \<or> 303 / 5 \<le> e"
  then have "\<not> (- 1 < e / 60 * 100 \<and> e / 60 * 100 < 101)" by auto
  with py_int_in_bar [of "e / 60 * 100"]
  have "\<not> (0 \<le> py_int (e / 60 * 100) \<and> py_int (e / 60 * 100) \<le> 100)" by blast
  then show ?thesis by (rule progress_out_of_range)
qed

lemma pass_running:
  assumes "now1 - t0 < 60" and "- (3 / 5) < now2 - t0" and "now2 - t0 < 303 / 5"
  shows "breathing_pass t0 now1 now2 =
       Inr \<lparr>prog = py_int ((now2 - t0) / 60 * 100),
            status = phase_status \<lfloor>((now2 - t0) - 16 * of_int \<lfloor>(now2 - t0) / 16\<rfloor>) / 4\<rfloor>,
            finished = False\<rparr>"
  using assms(1) progress_accepts [OF assms(2) assms(3)]
  by (simp only: breathing_pass_def total_seconds_def Let_def progress_value_eq phase_eq
        sum.case if_True)

lemma pass_rejected:
  assumes "now1 - t0 < 60" and "now2 - t0 \<le> - (3 / 5) \<or> 303 / 5 \<le> now2 - t0"
  shows "breathing_pass t0 now1 now2 = Inl StreamlitAPIException"
  using assms(1) progress_rejects [OF assms(2)]
  by (simp only: breathing_pass_def total_seconds_def Let_def progress_value_eq
        sum.case if_True)

lemma pass_done:
  "60 \<le> now1 - t0 \<Longrightarrow>
     breathing_pass t0 now1 now2 =
       Inr \<lparr>prog = 100,
            status = Success (''Great '' @ em_dash @ '' one minute done. How do you feel now?''),
            finished = True\<rparr>"
  by (simp add: breathing_pass_def total_seconds_def progress_def)

lemma sample_running:
  "- (3 / 5) < now - t0 \<Longrightarrow> now - t0 < 60 \<Longrightarrow>
     sample t0 now =
       Inr \<lparr>prog = py_int ((now - t0) / 60 * 100),
            status = phase_status \<lfloor>((now - t0) - 16 * of_int \<lfloor>(now - t0) / 16\<rfloor>) / 4\<rfloor>,
            finished = False\<rparr>"
  unfolding sample_def by (rule pass_running) simp_all


lemma sample_rejected:
  "now - t0 \<le> - (3 / 5) \<Longrightarrow> sample t0 now = Inl StreamlitAPIException"
  unfolding sample_def by (rule pass_rejected) simp_all

lemma sample_just_before_start:
  assumes "- (3 / 5) < now - t0" and "now - t0 < 0"
  shows "sample t0 now = Inr \<lparr>prog = 0, status = phase_status 3, finished = False\<rparr>"
proof -
  define e where "e = now - t0"
  from assms have e: "- (3 / 5) < e" "e < 0" by (simp_all add: e_def)
  then have "- 1 < e / 60 * 100" "e / 60 * 100 < 0" by simp_all
  then have "\<lceil>e / 60 * 100\<rceil> = 0" "py_int (e / 60 * 100) = \<lceil>e / 60 * 100\<rceil>"
    by (linarith, simp add: py_int_def)
  then have pi: "py_int (e / 60 * 100) = 0" by simp
  from e have "- 1 \<le> e / 16" "e / 16 < 0" by simp_all
  then have fl: "\<lfloor>e / 16\<rfloor> = - 1" by linarith
  from e have "3 \<le> (e + 16) / 4" "(e + 16) / 4 < 4" by simp_all
  then have "\<lfloor>(e + 16) / 4\<rfloor> = 3" by linarith
  with fl have ph: "\<lfloor>(e - 16 * of_int \<lfloor>e / 16\<rfloor>) / 4\<rfloor> = 3" by simp
  from e have "sample t0 now =
       Inr \<lparr>prog = py_int (e / 60 * 100),
            status = phase_status \<lfloor>(e - 16 * of_int \<lfloor>e / 16\<rfloor>) / 4\<rfloor>,
            finished = False\<rparr>"
    unfolding e_def by (intro sample_running) simp_all
  then show ?thesis by (simp only: pi ph)
qed

lemmas timer_defs =
  sample_def breathing_pass_def progress_value_def progress_def phase_def truediv_def
  py_mod_def floordiv_def py_int_def total_seconds_def phase_status_def

lemma send_raised:
  "raised (send chat_model m history) =
     (if strip m = [] then None
      else case chat_model m of Inl e \<Rightarrow> Some e | Inr gen \<Rightarrow> None)"
  by (simp add: send_def Let_def split: sum.split)

section \<open>The crisis detector\<close>

text \<open>
  Claim C1. For every message, the detector flags it exactly when one of the seven
  keywords \<open>suicide\<close>, \<open>kill myself\<close>, \<open>want to die\<close>, \<open>die\<close>, \<open>hopeless\<close>,
  \<open>worthless\<close>, \<open>end my life\<close> occurs as a contiguous substring of the lower-cased
  message; so a message whose lower-cased text contains none of them is not flagged.
\<close>

theorem crisis_flagged_iff_keyword_occurs:
  "(crisis_flagged m \<longleftrightarrow>
      (\<exists>k\<in>set [''suicide'', ''kill myself'', ''want to die'', ''die'', ''hopeless'',
                 ''worthless'', ''end my life''].
         \<exists>pre post. lower m = pre @ k @ post))
   \<and> ((\<forall>k\<in>set CRISIS_KEYWORDS. \<not> (\<exists>pre post. lower m = pre @ k @ post))
        \<longrightarrow> \<not> crisis_flagged m)"
proof -
  have "crisis_flagged m \<longleftrightarrow>
          (\<exists>k\<in>set CRISIS_KEYWORDS. \<exists>pre post. lower m = pre @ k @ post)"
    unfolding crisis_flagged_def Let_def by (rule any_keyword_iff)
  then show ?thesis
    unfolding CRISIS_KEYWORDS_def by blast
qed

theorem crisis_flagged_iff_keyword_occurs_witness:
  "\<not> (\<exists>k\<in>set CRISIS_KEYWORDS. \<exists>pre post. lower ''Good morning, Diana'' = pre @ k @ post)
   \<and> \<not> crisis_flagged ''Good morning, Diana''
   \<and> lower ''He DIED'' = ''he '' @ ''die'' @ ''d''
   \<and> crisis_flagged ''He DIED''"
proof -
  have "\<forall>k\<in>set CRISIS_KEYWORDS. \<not> contains k (lower ''Good morning, Diana'')"
    by code_simp
  then have none: "\<forall>k\<in>set CRISIS_KEYWORDS.
                     \<not> (\<exists>pre post. lower ''Good morning, Diana'' = pre @ k @ post)"
    by (simp add: contains_iff)
  have low: "lower ''He DIED'' = ''he '' @ ''die'' @ ''d''"
    by code_simp
  from low have occ: "\<exists>pre post. lower ''He DIED'' = pre @ ''die'' @ post"
    by blast
  from none crisis_flagged_iff_keyword_occurs [of "''Good morning, Diana''"]
  have a: "\<not> crisis_flagged ''Good morning, Diana''" by blast
  from occ crisis_flagged_iff_keyword_occurs [of "''He DIED''"]
  have b: "crisis_flagged ''He DIED''" by simp
  from none a low b show ?thesis by blast
qed

text \<open>
  Claim C2, as the specification states it: the detector returns, beside the flag, the
  list \<open>matchedTerms\<close> of every keyword that occurs in the message. The source computes
  \<open>any(...)\<close>, a single truth value, and shows the same fixed notice for every flagged
  message. For \<open>I want to die\<close> and \<open>I feel HOPELESS today\<close> the whole outcome of
  lines 168 to 173 is the same, although the keywords that occur are \<open>want to die\<close>,
  \<open>die\<close> for the first and \<open>hopeless\<close> for the second: nothing the source computes
  is, or determines, the list of matched terms.
\<close>

theorem matched_terms_not_reported:
  "crisis_flagged ''I want to die'' = crisis_flagged ''I feel HOPELESS today''
   \<and> crisis_check ''I want to die'' = crisis_check ''I feel HOPELESS today''
   \<and> spec_matchedTerms ''I want to die'' = [''want to die'', ''die'']
   \<and> spec_matchedTerms ''I feel HOPELESS today'' = [''hopeless'']"
  by code_simp

text \<open>
  Claim C2, amended: the detector yields the flag only. For every keyword \<open>k\<close> of the
  list, a message that embeds \<open>k\<close> written in any mix of upper and lower case, between
  any text, is flagged; \<open>I want to die\<close> and \<open>I feel HOPELESS today\<close> are flagged.
\<close>

theorem embedded_keyword_is_flagged:
  "(k \<in> set CRISIS_KEYWORDS \<and> lower w = k \<longrightarrow> crisis_flagged (pre @ w @ post))
   \<and> crisis_flagged ''I want to die''
   \<and> crisis_flagged ''I feel HOPELESS today''"
proof -
  have gen: "crisis_flagged (pre @ w @ post)" if "k \<in> set CRISIS_KEYWORDS" "lower w = k"
  proof -
    from that(2) have "lower (pre @ w @ post) = lower pre @ k @ lower post"
      by (simp add: lower_append)
    then have "\<exists>a b. lower (pre @ w @ post) = a @ k @ b" by blast
    with that(1) show ?thesis
      unfolding crisis_flagged_def Let_def any_keyword_iff by blast
  qed
  have "crisis_flagged ''I want to die''" by code_simp
  moreover have "crisis_flagged ''I feel HOPELESS today''" by code_simp
  ultimately show ?thesis using gen by blast
qed

theorem embedded_keyword_is_flagged_witness:
  "''end my life'' \<in> set CRISIS_KEYWORDS \<and> lower ''End My LIFE'' = ''end my life''
   \<and> crisis_flagged (''I will '' @ ''End My LIFE'' @ '' soon'')"
proof -
  have a: "''end my life'' \<in> set CRISIS_KEYWORDS" by (simp add: CRISIS_KEYWORDS_def)
  have b: "lower ''End My LIFE'' = ''end my life''" by code_simp
  from a b embedded_keyword_is_flagged [of "''end my life''" "''End My LIFE''" "''I will ''" "'' soon''"]
  show ?thesis by blast
qed

text \<open>
  Claim C7. On the empty string the detector does not flag, no keyword matches and
  nothing is shown; the same holds for every message made of white space only, which
  the page answers with its warning alone, without calling the model.
\<close>

theorem blank_message_not_flagged:
  "\<not> crisis_flagged []
   \<and> (\<forall>k\<in>set CRISIS_KEYWORDS. \<not> contains k (lower []))
   \<and> crisis_check [] = []
   \<and> ((\<forall>c\<in>set m. isspace c) \<longrightarrow>
        \<not> crisis_flagged m
        \<and> (\<forall>k\<in>set CRISIS_KEYWORDS. \<not> contains k (lower m))
        \<and> crisis_check m = []
        \<and> shown (send chat_model m history) = [Warning ''Please type something before sending.'']
        \<and> prompts (send chat_model m history) = [])"
proof -
  have blank: "\<not> crisis_flagged x \<and> (\<forall>k\<in>set CRISIS_KEYWORDS. \<not> contains k (lower x))
               \<and> crisis_check x = []
               \<and> shown (send chat_model x history) = [Warning ''Please type something before sending.'']
               \<and> prompts (send chat_model x history) = []"
    if sp: "\<forall>c\<in>set x. isspace c" for x
  proof -
    from sp have none: "\<forall>k\<in>set CRISIS_KEYWORDS. \<not> contains k (lower x)"
      using blank_has_no_keyword by blast
    then have nf: "\<not> crisis_flagged x"
      by (simp add: crisis_flagged_def list_ex_iff)
    from sp have "strip x = []" by (simp add: strip_empty_iff)
    then have "send chat_model x history =
                 \<lparr>shown = [Warning ''Please type something before sending.''], prompts = [],
                  chat_history = history, raised = None\<rparr>"
      by (simp add: send_def)
    with none nf show ?thesis by (simp add: crisis_check_def)
  qed
  from blank [of "[]"] blank [of m] show ?thesis by simp
qed

theorem blank_message_not_flagged_witness:
  "isspace CHR '' '' \<and> isspace (CHR 0x09) \<and> isspace (CHR 0x0A)
   \<and> \<not> crisis_flagged [CHR '' '', CHR 0x09, CHR 0x0A]
   \<and> crisis_check [CHR '' '', CHR 0x09, CHR 0x0A] = []"
proof -
  have a: "isspace CHR '' '' \<and> isspace (CHR 0x09) \<and> isspace (CHR 0x0A)"
    by (simp add: isspace_def)
  then have "\<forall>c\<in>set [CHR '' '', CHR 0x09, CHR 0x0A]. isspace c" by simp
  with a blank_message_not_flagged [of "[CHR '' '', CHR 0x09, CHR 0x0A]"]
  show ?thesis by blast
qed

section \<open>The chat page and the helplines\<close>

text \<open>
  Claim C9. Whenever a message is flagged the page shows the fixed safety banner, then
  exactly the four helplines, each as its label followed by its contact string, in the
  order of the table, then the fixed closing advice (and after them the spinner of the
  model call).
\<close>

theorem flagged_message_shows_helplines:
  "crisis_flagged m \<Longrightarrow>
     shown (send chat_model m history) =
       [Error (warning_sign @ '' It looks like you may be in crisis or feeling unsafe. Please reach out to a helpline or trusted person immediately.''),
        Write (''India (NIMHANS)'' @ ''** '' @ em_dash @ '' '' @ ''080-4611-0007''),
        Write (''iCall India'' @ ''** '' @ em_dash @ '' '' @ ''+91 9152987821''),
        Write (''US (988)'' @ ''** '' @ em_dash @ '' '' @ ''988''),
        Write (''International (if available)'' @ ''** '' @ em_dash @ '' ''
               @ ''Contact local emergency services / national lifeline''),
        Write ''If you are in immediate danger, contact emergency services in your country.'',
        Spinner ''AI is thinking...'']"
proof -
  assume fl: "crisis_flagged m"
  then have nb: "strip m \<noteq> []" by (rule flagged_not_blank)
  have notice: "crisis_notice =
       [Error (warning_sign @ '' It looks like you may be in crisis or feeling unsafe. Please reach out to a helpline or trusted person immediately.''),
        Write (''India (NIMHANS)'' @ ''** '' @ em_dash @ '' '' @ ''080-4611-0007''),
        Write (''iCall India'' @ ''** '' @ em_dash @ '' '' @ ''+91 9152987821''),
        Write (''US (988)'' @ ''** '' @ em_dash @ '' '' @ ''988''),
        Write (''International (if available)'' @ ''** '' @ em_dash @ '' ''
               @ ''Contact local emergency services / national lifeline''),
        Write ''If you are in immediate danger, contact emergency services in your country.'']"
    unfolding crisis_notice_def HELPLINES_def by simp
  have "shown (send chat_model m history) = crisis_check m @ [Spinner ''AI is thinking...'']"
    using nb by (simp add: send_def Let_def split: sum.split)
  also have "crisis_check m = crisis_notice" using fl by (simp add: crisis_check_def)
  finally show ?thesis unfolding notice by simp
qed

theorem flagged_message_shows_helplines_witness:
  "crisis_flagged ''I feel worthless''
   \<and> length (shown (send (\<lambda>p. Inr (p @ '' ok'')) ''I feel worthless'' [])) = 7
   \<and> shown (send (\<lambda>p. Inr (p @ '' ok'')) ''I feel worthless'' []) ! 3
       = Write (''US (988)** '' @ em_dash @ '' 988'')"
proof -
  have a: "crisis_flagged ''I feel worthless''" by code_simp
  from flagged_message_shows_helplines [OF a, of "\<lambda>p. Inr (p @ '' ok'')" "[]"] a
  show ?thesis by simp
qed

text \<open>
  Claim C10. For every message that is not blank, flagged or not, the message is the
  one prompt handed to the model; when the model returns, the user's message and the
  extracted reply are appended to the chat history, and when it raises the history is
  left as it was; none of this depends on the flag. Flagging only puts the notice in
  front of what the page shows.
\<close>

theorem flagging_leaves_pipeline_unchanged:
  "strip m \<noteq> [] \<Longrightarrow>
     prompts (send chat_model m history) = [m]
     \<and> chat_history (send chat_model m history) =
         (case chat_model m of
            Inl e \<Rightarrow> history
          | Inr gen \<Rightarrow> history @ [(''You'', m), (''AI'', extract_reply m gen)])
     \<and> raised (send chat_model m history) =
         (case chat_model m of Inl e \<Rightarrow> Some e | Inr gen \<Rightarrow> None)
     \<and> shown (send chat_model m history) =
         (if crisis_flagged m then crisis_notice else []) @ [Spinner ''AI is thinking...'']"
  by (simp add: send_def Let_def crisis_check_def split: sum.split)

theorem flagging_leaves_pipeline_unchanged_witness:
  "strip ''I want to die'' \<noteq> [] \<and> crisis_flagged ''I want to die''
   \<and> chat_history (send (\<lambda>p. Inr (p @ '' I hear you '')) ''I want to die'' [(''You'', ''hi''), (''AI'', ''hello'')])
       = [(''You'', ''hi''), (''AI'', ''hello''), (''You'', ''I want to die''), (''AI'', ''I hear you'')]
   \<and> strip ''good day'' \<noteq> [] \<and> \<not> crisis_flagged ''good day''
   \<and> chat_history (send (\<lambda>p. Inr (p @ '' I hear you '')) ''good day'' [(''You'', ''hi''), (''AI'', ''hello'')])
       = [(''You'', ''hi''), (''AI'', ''hello''), (''You'', ''good day''), (''AI'', ''I hear you'')]"
proof -
  have a: "strip ''I want to die'' \<noteq> []" by code_simp
  have b: "strip ''good day'' \<noteq> []" by code_simp
  have fa: "crisis_flagged ''I want to die''" by code_simp
  have fb: "\<not> crisis_flagged ''good day''" by code_simp
  have ra: "extract_reply ''I want to die'' (''I want to die'' @ '' I hear you '') = ''I hear you''"
    by code_simp
  have rb: "extract_reply ''good day'' (''good day'' @ '' I hear you '') = ''I hear you''"
    by code_simp
  from flagging_leaves_pipeline_unchanged [OF a, of "\<lambda>p. Inr (p @ '' I hear you '')" "[(''You'', ''hi''), (''AI'', ''hello'')]"]
       flagging_leaves_pipeline_unchanged [OF b, of "\<lambda>p. Inr (p @ '' I hear you '')" "[(''You'', ''hi''), (''AI'', ''hello'')]"]
       a b fa fb ra rb
  show ?thesis by simp
qed

section \<open>The breathing timer\<close>

text \<open>
  Claim C3. At every elapsed time \<open>t\<close> the phase index is
  \<open>floor((t mod 16) / 4)\<close>, one of 0, 1, 2, 3, and while the session runs (and the
  progress bar has taken its value) the status box shows the label of that index: 0 is
  Inhale, 1 the first Hold, 2 Exhale, 3 the second Hold. Index \<open>i\<close> is shown exactly
  during the \<open>i\<close>-th four seconds of each cycle of sixteen. At 0, 4, 8, 12 and 16
  seconds the index is 0, 1, 2, 3 and 0 again.
\<close>

theorem phase_cycles_every_four_seconds:
  "phase t = Inr \<lfloor>(t - 16 * of_int \<lfloor>t / 16\<rfloor>) / 4\<rfloor>
   \<and> \<lfloor>(t - 16 * of_int \<lfloor>t / 16\<rfloor>) / 4\<rfloor> \<in> {0, 1, 2, 3}
   \<and> (- (3 / 5) < now - t0 \<and> now - t0 < 60 \<longrightarrow>
        (\<exists>r. sample t0 now = Inr r
           \<and> status r =
               phase_status \<lfloor>((now - t0) - 16 * of_int \<lfloor>(now - t0) / 16\<rfloor>) / 4\<rfloor>))
   \<and> (0 \<le> i \<and> i \<le> 3 \<and> 16 * of_int n + 4 * of_int i \<le> t
        \<and> t < 16 * of_int n + 4 * of_int i + 4 \<longrightarrow> phase t = Inr i)
   \<and> phase_status 0 = Info (''Inhale '' @ em_dash @ '' 4 seconds'')
   \<and> phase_status 1 = Info (''Hold '' @ em_dash @ '' 4 seconds'')
   \<and> phase_status 2 = Info (''Exhale '' @ em_dash @ '' 4 seconds'')
   \<and> phase_status 3 = Info (''Hold '' @ em_dash @ '' 4 seconds'')
   \<and> phase 0 = Inr 0 \<and> phase 4 = Inr 1 \<and> phase 8 = Inr 2 \<and> phase 12 = Inr 3
   \<and> phase 16 = Inr 0"
proof -
  have run: "- (3 / 5) < now - t0 \<and> now - t0 < 60 \<longrightarrow>
        (\<exists>r. sample t0 now = Inr r
           \<and> status r =
               phase_status \<lfloor>((now - t0) - 16 * of_int \<lfloor>(now - t0) / 16\<rfloor>) / 4\<rfloor>)"
    by (simp add: sample_running)
  have win: "0 \<le> i \<and> i \<le> 3 \<and> 16 * of_int n + 4 * of_int i \<le> t
        \<and> t < 16 * of_int n + 4 * of_int i + 4 \<longrightarrow> phase t = Inr i"
    using phase_in_window [of n i t] by blast
  have labels: "phase_status 0 = Info (''Inhale '' @ em_dash @ '' 4 seconds'')"
    "phase_status 1 = Info (''Hold '' @ em_dash @ '' 4 seconds'')"
    "phase_status 2 = Info (''Exhale '' @ em_dash @ '' 4 seconds'')"
    "phase_status 3 = Info (''Hold '' @ em_dash @ '' 4 seconds'')"
    by (simp_all add: phase_status_def)
  have vals: "phase 0 = Inr 0" "phase 4 = Inr 1" "phase 8 = Inr 2" "phase 12 = Inr 3"
    "phase 16 = Inr 0"
    by (simp_all add: phase_eq)
  from phase_eq [of t] phase_index_range [of t] run win labels vals
  show ?thesis by blast
qed

theorem phase_cycles_every_four_seconds_witness:
  "- (3 / 5) < (37::real) - 0 \<and> (37::real) - 0 < 60
   \<and> sample 0 37 = Inr \<lparr>prog = 61, status = phase_status 1, finished = False\<rparr>
   \<and> (0::int) \<le> 1 \<and> (1::int) \<le> 3 \<and> 16 * of_int 2 + 4 * of_int 1 \<le> (37::real)
   \<and> (37::real) < 16 * of_int 2 + 4 * of_int 1 + 4
   \<and> phase 37 = Inr 1"
proof -
  have s: "sample 0 37 = Inr \<lparr>prog = 61, status = phase_status 1, finished = False\<rparr>"
    by (simp add: timer_defs)
  from phase_cycles_every_four_seconds [of 37 37 0 1 2] s
  show ?thesis by simp
qed



text \<open>
  Claim C5. Of two sample instants of one session, both before its sixtieth second, the
  later one gives at least the progress value of the earlier one; and when the earlier
  one is an instant at which the bar takes its value (any instant from the start on),
  both samples return frames and the later frame reports at least the progress of the
  earlier one.
\<close>

theorem progress_monotone:
  "now1 < now2 \<Longrightarrow> now2 < t0 + 60 \<Longrightarrow>
     (\<exists>v1 v2. progress_value (now1 - t0) = Inr v1 \<and> progress_value (now2 - t0) = Inr v2
        \<and> v1 \<le> v2)
     \<and> (t0 - 3 / 5 < now1 \<longrightarrow>
          (\<exists>r1 r2. sample t0 now1 = Inr r1 \<and> sample t0 now2 = Inr r2 \<and> prog r1 \<le> prog r2))"
proof -
  assume lt: "now1 < now2" and b2: "now2 < t0 + 60"
  then have r1: "now1 - t0 < 60" and r2: "now2 - t0 < 60" by simp_all
  from lt have "(now1 - t0) / 60 * 100 \<le> (now2 - t0) / 60 * 100" by simp
  then have mono: "py_int ((now1 - t0) / 60 * 100) \<le> py_int ((now2 - t0) / 60 * 100)"
    by (rule py_int_mono)
  then have vals: "\<exists>v1 v2. progress_value (now1 - t0) = Inr v1
      \<and> progress_value (now2 - t0) = Inr v2 \<and> v1 \<le> v2"
    by (simp add: progress_value_eq)
  have frames: "\<exists>r1 r2. sample t0 now1 = Inr r1 \<and> sample t0 now2 = Inr r2 \<and> prog r1 \<le> prog r2"
    if "t0 - 3 / 5 < now1"
  proof -
    from that lt have l1: "- (3 / 5) < now1 - t0" and l2: "- (3 / 5) < now2 - t0" by simp_all
    from sample_running [OF l1 r1] sample_running [OF l2 r2] mono show ?thesis by simp
  qed
  from vals frames show ?thesis by blast
qed

theorem progress_monotone_witness:
  "(10::real) < 30 \<and> (30::real) < 0 + 60 \<and> (0::real) - 3 / 5 < 10
   \<and> (\<exists>r1 r2. sample 0 10 = Inr r1 \<and> sample 0 30 = Inr r2 \<and> prog r1 \<le> prog r2)"
proof -
  have a: "(10::real) < 30" and b: "(30::real) < 0 + 60" and c: "(0::real) - 3 / 5 < 10"
    by simp_all
  from progress_monotone [OF a b] a b c show ?thesis by blast
qed

text \<open>
  Claim C6, as the specification states it: a sample taken before the start instant is
  treated as elapsed time 0, phase Inhale and progress 0. The source has no clamp: 0.3
  seconds before the start the status box shows Hold, not Inhale, and six seconds
  before the start the progress value is \<open>-10\<close>, which the progress bar rejects, so
  the sample raises and shows no phase at all.
\<close>

theorem negative_elapsed_is_not_clamped:
  "sample 10 (97 / 10) =
     Inr \<lparr>prog = 0, status = Info (''Hold '' @ em_dash @ '' 4 seconds''), finished = False\<rparr>
   \<and> sample 10 4 = Inl StreamlitAPIException"
proof -
  have "sample 10 (97 / 10) = Inr \<lparr>prog = 0, status = phase_status 3, finished = False\<rparr>"
    by (rule sample_just_before_start) simp_all
  moreover have "sample 10 4 = Inl StreamlitAPIException"
    by (rule sample_rejected) simp
  ultimately show ?thesis by (simp add: phase_status_def)
qed

text \<open>
  Claim C6, amended: a sample taken before the start instant is computed from the
  negative elapsed time as it is. Less than 0.6 seconds before the start it reports
  progress 0 and the phase Hold, the last of the cycle. From 0.6 seconds before the
  start back, the progress value \<open>elapsed / 60 * 100\<close>, rounded toward zero, is
  negative; the progress bar rejects it and the sample raises.
\<close>

theorem negative_elapsed_is_used_as_it_is:
  "now < t0 \<Longrightarrow>
     (t0 - 3 / 5 < now \<longrightarrow>
        sample t0 now =
          Inr \<lparr>prog = 0, status = Info (''Hold '' @ em_dash @ '' 4 seconds''),
               finished = False\<rparr>)
     \<and> (now \<le> t0 - 3 / 5 \<longrightarrow>
          sample t0 now = Inl StreamlitAPIException
          \<and> progress_value (now - t0) = Inr \<lceil>(now - t0) / 60 * 100\<rceil>
          \<and> \<lceil>(now - t0) / 60 * 100\<rceil> < 0)"
proof -
  assume lt: "now < t0"
  have near: "sample t0 now =
          Inr \<lparr>prog = 0, status = Info (''Hold '' @ em_dash @ '' 4 seconds''),
               finished = False\<rparr>" if "t0 - 3 / 5 < now"
  proof -
    from that lt have "- (3 / 5) < now - t0" "now - t0 < 0" by simp_all
    then have "sample t0 now = Inr \<lparr>prog = 0, status = phase_status 3, finished = False\<rparr>"
      by (rule sample_just_before_start)
    then show ?thesis by (simp add: phase_status_def)
  qed
  have far: "sample t0 now = Inl StreamlitAPIException
          \<and> progress_value (now - t0) = Inr \<lceil>(now - t0) / 60 * 100\<rceil>
          \<and> \<lceil>(now - t0) / 60 * 100\<rceil> < 0" if "now \<le> t0 - 3 / 5"
  proof -
    define e where "e = now - t0"
    from that have e: "e \<le> - (3 / 5)" by (simp add: e_def)
    then have le: "e / 60 * 100 \<le> - 1" by simp
    then have "\<lceil>e / 60 * 100\<rceil> \<le> - 1" by (simp add: ceiling_le_iff)
    then have neg: "\<lceil>e / 60 * 100\<rceil> < 0" by linarith
    from le have "py_int (e / 60 * 100) = \<lceil>e / 60 * 100\<rceil>" by (simp add: py_int_def)
    then have pv: "progress_value e = Inr \<lceil>e / 60 * 100\<rceil>" by (simp only: progress_value_eq)
    from e have "sample t0 now = Inl StreamlitAPIException"
      unfolding e_def by (rule sample_rejected)
    with pv neg show ?thesis unfolding e_def by blast
  qed
  from near far show ?thesis by blast
qed

theorem negative_elapsed_is_used_as_it_is_witness:
  "(99::real) < 100 \<and> (100::real) - 3 / 5 < 99 + 1 / 2 \<and> 99 + 1 / 2 < (100::real)
   \<and> sample 100 (99 + 1 / 2) =
       Inr \<lparr>prog = 0, status = Info (''Hold '' @ em_dash @ '' 4 seconds''), finished = False\<rparr>
   \<and> (99::real) \<le> 100 - 3 / 5
   \<and> sample 100 99 = Inl StreamlitAPIException
   \<and> progress_value (99 - 100) = Inr (- 1)"
proof -
  have a: "(99::real) + 1 / 2 < 100" and b: "(100::real) - 3 / 5 < 99 + 1 / 2" by simp_all
  have c: "(99::real) < 100" and d: "(99::real) \<le> 100 - 3 / 5" by simp_all
  from negative_elapsed_is_used_as_it_is [OF a] b
  have near: "sample 100 (99 + 1 / 2) =
       Inr \<lparr>prog = 0, status = Info (''Hold '' @ em_dash @ '' 4 seconds''), finished = False\<rparr>"
    by blast
  from negative_elapsed_is_used_as_it_is [OF c] d
  have far: "sample 100 99 = Inl StreamlitAPIException"
    "progress_value (99 - 100) = Inr \<lceil>(99 - 100) / 60 * 100 :: real\<rceil>" by blast+
  from far(2) have "progress_value (99 - 100) = Inr (- 1)" by simp
  with a b c d near far(1) show ?thesis by simp
qed

section \<open>Totality\<close>

text \<open>
  Claim C8, as the specification states it: neither component raises, and invalid input
  is normalised. The timer raises: sixty seconds before the start the sample hands
  \<open>-100\<close> to the progress bar, and a pass whose clock reads 59 and then 61 seconds
  hands it \<open>101\<close>; the bar rejects both.
\<close>

theorem clock_set_back_raises:
  "sample 100 40 = Inl StreamlitAPIException
   \<and> breathing_pass 0 59 61 = Inl StreamlitAPIException"
proof -
  have "sample 100 40 = Inl StreamlitAPIException" by (rule sample_rejected) simp
  moreover have "breathing_pass 0 59 61 = Inl StreamlitAPIException"
    by (rule pass_rejected) simp_all
  ultimately show ?thesis by blast
qed

text \<open>
  Claim C8, amended: the chat handler, detector included, ends with an exception only
  when the call of the model raised one. The timer neither normalises nor survives
  invalid input: a pass of the loop returns a frame exactly when the loop has ended or
  the elapsed time it reads is later than 0.6 seconds before the start and earlier
  than 60.6 seconds after it, and otherwise raises the progress bar's exception; so a
  sample returns a frame exactly from 0.6 seconds before the start on.
\<close>

theorem detector_total_timer_partial:
  "((\<exists>r. breathing_pass t0 now1 now2 = Inr r) \<longleftrightarrow>
      (60 \<le> now1 - t0 \<or> (- (3 / 5) < now2 - t0 \<and> now2 - t0 < 303 / 5)))
   \<and> (now1 - t0 < 60 \<and> (now2 - t0 \<le> - (3 / 5) \<or> 303 / 5 \<le> now2 - t0) \<longrightarrow>
        breathing_pass t0 now1 now2 = Inl StreamlitAPIException)
   \<and> ((\<exists>r. sample t0 now = Inr r) \<longleftrightarrow> t0 - 3 / 5 < now)
   \<and> (chat_model m = Inr gen \<longrightarrow> raised (send chat_model m history) = None)
   \<and> (raised (send chat_model m history) = Some e \<longrightarrow> chat_model m = Inl e)"
proof -
  have rej: "breathing_pass t0 n1 n2 = Inl StreamlitAPIException"
    if "n1 - t0 < 60 \<and> (n2 - t0 \<le> - (3 / 5) \<or> 303 / 5 \<le> n2 - t0)" for n1 n2
    using that pass_rejected [of n1 t0 n2] by blast
  have pass: "(\<exists>r. breathing_pass t0 n1 n2 = Inr r) \<longleftrightarrow>
      (60 \<le> n1 - t0 \<or> (- (3 / 5) < n2 - t0 \<and> n2 - t0 < 303 / 5))" for n1 n2
  proof
    assume ex: "\<exists>r. breathing_pass t0 n1 n2 = Inr r"
    show "60 \<le> n1 - t0 \<or> (- (3 / 5) < n2 - t0 \<and> n2 - t0 < 303 / 5)"
    proof (rule ccontr)
      assume "\<not> (60 \<le> n1 - t0 \<or> (- (3 / 5) < n2 - t0 \<and> n2 - t0 < 303 / 5))"
      then have "n1 - t0 < 60 \<and> (n2 - t0 \<le> - (3 / 5) \<or> 303 / 5 \<le> n2 - t0)" by auto
      then have "breathing_pass t0 n1 n2 = Inl StreamlitAPIException" by (rule rej)
      with ex show False by simp
    qed
  next
    assume "60 \<le> n1 - t0 \<or> (- (3 / 5) < n2 - t0 \<and> n2 - t0 < 303 / 5)"
    then consider "60 \<le> n1 - t0" | "n1 - t0 < 60" "- (3 / 5) < n2 - t0" "n2 - t0 < 303 / 5"
      by linarith
    then show "\<exists>r. breathing_pass t0 n1 n2 = Inr r"
    proof cases
      case 1
      then show ?thesis by (simp add: pass_done)
    next
      case 2
      then show ?thesis by (simp add: pass_running)
    qed
  qed
  have smp: "(\<exists>r. sample t0 now = Inr r) \<longleftrightarrow> t0 - 3 / 5 < now"
    unfolding sample_def pass by auto
  have c: "chat_model m = Inr gen \<longrightarrow> raised (send chat_model m history) = None"
    by (simp add: send_raised)
  have d: "raised (send chat_model m history) = Some e \<longrightarrow> chat_model m = Inl e"
    by (simp add: send_raised split: if_splits sum.splits)
  from pass [of now1 now2] rej [of now1 now2] smp c d show ?thesis by blast
qed

theorem detector_total_timer_partial_witness:
  "raised (send (\<lambda>p. Inr (p @ '' ok'')) ''so hopeless'' []) = None
   \<and> raised (send (\<lambda>p. Inl PipelineError) ''so hopeless'' []) = Some PipelineError
   \<and> (59::real) - 0 < 60 \<and> 303 / 5 \<le> (61::real) - 0
   \<and> breathing_pass 0 59 61 = Inl StreamlitAPIException
   \<and> (0::real) - 3 / 5 < 75
   \<and> (\<exists>r. sample 0 75 = Inr r)"
proof -
  have r: "raised (send (\<lambda>p. Inl PipelineError) ''so hopeless'' []) = Some PipelineError"
    by code_simp
  have h: "(59::real) - 0 < 60" "303 / 5 \<le> (61::real) - 0" "(0::real) - 3 / 5 < 75"
    by simp_all
  from detector_total_timer_partial
         [of 0 59 61 75 "\<lambda>p. Inr (p @ '' ok'')" "''so hopeless''" "''so hopeless ok''" "[]"
             PipelineError]
  have ok: "raised (send (\<lambda>p. Inr (p @ '' ok'')) ''so hopeless'' []) = None" by simp
  from detector_total_timer_partial
         [of 0 59 61 75 "\<lambda>p. Inl PipelineError" "''so hopeless''" "''x''" "[]" PipelineError] h
  have t: "breathing_pass 0 59 61 = Inl StreamlitAPIException" "\<exists>r. sample 0 75 = Inr r"
    by blast+
  from ok r h t show ?thesis by blast
qed

end
